theory Spec2Isabelle
  imports Complex_Main "HOL-Library.Word" "HOL-Library.AList" "HOL-Library.Multiset"
begin

section \<open>Errors\<close>

text \<open>
  The exceptions that \<^verbatim>\<open>dataset.py\<close> can let escape. The module defines no exception
  class of its own and has no \<^verbatim>\<open>raise\<close> statement: every failure is one that Python, the
  operating system interface, OpenCV or PIL raises.
\<close>

datatype error =
    IndexError
  | TypeError
  | ValueError
  | OverflowError
  | FileNotFoundError
  | NotADirectoryError
  | FileExistsError
  | IsADirectoryError
  | UnidentifiedImageError
  | CvError

section \<open>Images\<close>

type_synonym pixel = "8 word"

text \<open>A grayscale image (a two-dimensional \<^verbatim>\<open>uint8\<close> array) as the list of its rows.\<close>

type_synonym image = "pixel list list"

definition height :: "image \<Rightarrow> nat" where
  "height im = length im"

definition width :: "image \<Rightarrow> nat" where
  "width im = (case im of [] \<Rightarrow> 0 | r # _ \<Rightarrow> length r)"

text \<open>An array with no element (\<^verbatim>\<open>Mat::empty()\<close>).\<close>

definition is_empty :: "image \<Rightarrow> bool" where
  "is_empty im = (height im = 0 \<or> width im = 0)"

text \<open>What a decoder returns: at least one pixel, all rows of one length.\<close>

definition well_formed :: "image \<Rightarrow> bool" where
  "well_formed im = (\<not> is_empty im \<and> (\<forall>r \<in> set im. length r = width im))"

section \<open>The file system\<close>

text \<open>
  Paths are POSIX path strings. A file either decodes to a grayscale image or does not;
  the content of an image file is identified with the pixel array handed to the
  encoder (the loss of a JPEG encoder is not modelled). The file system is the list of
  its nodes with their paths, in the order in which the operating system lists them.
  Permissions, links and the intermediate directories that \<^verbatim>\<open>os.makedirs\<close> creates are
  not modelled: no operation of the program observes them.
\<close>

type_synonym path = string

datatype content = ImageData image | OtherData

datatype node = Dir | File content

type_synonym filesystem = "(path \<times> node) list"

text \<open>\<^verbatim>\<open>os.path.join(a, b)\<close> of \<^verbatim>\<open>posixpath\<close>.\<close>

definition os_path_join :: "path \<Rightarrow> path \<Rightarrow> path" where
  "os_path_join a b =
     (if b \<noteq> [] \<and> hd b = CHR ''/'' then b
      else if a = [] \<or> last a = CHR ''/'' then a @ b
      else a @ ''/'' @ b)"

definition os_path_exists :: "filesystem \<Rightarrow> path \<Rightarrow> bool" where
  "os_path_exists fs p = (map_of fs p \<noteq> None)"

text \<open>\<^verbatim>\<open>os.makedirs(p)\<close> (with \<^verbatim>\<open>exist_ok=False\<close>): the new directory is empty.\<close>

definition os_makedirs :: "filesystem \<Rightarrow> path \<Rightarrow> (error + unit) \<times> filesystem" where
  "os_makedirs fs p =
     (if os_path_exists fs p then (Inl FileExistsError, fs)
      else (Inr (), fs @ [(p, Dir)]))"

text \<open>
  \<open>child_name d p\<close> is the name \<open>f\<close> for which \<open>p\<close> is the entry \<open>f\<close> of the
  directory \<open>d\<close>: a non-empty name without a separator, appended to \<open>d\<close> as
  \<open>os_path_join\<close> does.
\<close>

definition child_name :: "path \<Rightarrow> path \<Rightarrow> string option" where
  "child_name d p =
     (let pre = (if d = [] \<or> last d = CHR ''/'' then d else d @ ''/'')
      in if length pre < length p \<and> take (length pre) p = pre
            \<and> CHR ''/'' \<notin> set (drop (length pre) p)
         then Some (drop (length pre) p) else None)"

text \<open>\<^verbatim>\<open>os.listdir(d)\<close>: the names of the entries, in the order of the file system.\<close>

definition os_listdir :: "filesystem \<Rightarrow> path \<Rightarrow> error + string list" where
  "os_listdir fs d =
     (case map_of fs d of
        None \<Rightarrow> Inl FileNotFoundError
      | Some (File c) \<Rightarrow> Inl NotADirectoryError
      | Some Dir \<Rightarrow> Inr (List.map_filter (\<lambda>(p, n). child_name d p) fs))"

text \<open>Whether the directory that would hold \<open>p\<close> exists.\<close>

definition parent_exists :: "filesystem \<Rightarrow> path \<Rightarrow> bool" where
  "parent_exists fs p = list_ex (\<lambda>(d, n). n = Dir \<and> child_name d p \<noteq> None) fs"

text \<open>\<^verbatim>\<open>str.lower\<close> on the ASCII letters, and \<^verbatim>\<open>str.endswith\<close>. The suffixes tested below are
  ASCII, and no other character lowers to one of their letters.\<close>

definition lower_char :: "char \<Rightarrow> char" where
  "lower_char c =
     (let n = (of_char c :: nat) in if 65 \<le> n \<and> n \<le> 90 then char_of (n + 32) else c)"

definition lower :: "string \<Rightarrow> string" where
  "lower s = map lower_char s"

definition endswith :: "string \<Rightarrow> string \<Rightarrow> bool" where
  "endswith s suf = (length suf \<le> length s \<and> drop (length s - length suf) s = suf)"

section \<open>What OpenCV and PIL provide\<close>

datatype interpolation = INTER_NEAREST | INTER_LINEAR | INTER_CUBIC

text \<open>
  The numeric kernels of OpenCV compute in floating point and are parameters of the
  model:
  \<^item> \<open>otsu im\<close> is the threshold that Otsu's method selects for \<open>im\<close>;
  \<^item> \<open>resample m src (w, h) x y\<close> is the value that \<^verbatim>\<open>cv2.resize\<close> with interpolation \<open>m\<close>
    gives the pixel in column \<open>x\<close> and row \<open>y\<close> of a destination of width \<open>w\<close> and
    height \<open>h\<close>;
  \<^item> \<open>has_encoder p\<close> tells whether \<^verbatim>\<open>cv2.imwrite\<close> has an encoder for the extension of
    \<open>p\<close>.
  The theorems hold for every such library.
\<close>

record cv2 =
  otsu :: "image \<Rightarrow> pixel"
  resample :: "interpolation \<Rightarrow> image \<Rightarrow> nat \<times> nat \<Rightarrow> nat \<Rightarrow> nat \<Rightarrow> pixel"
  has_encoder :: "path \<Rightarrow> bool"

text \<open>
  \<^verbatim>\<open>cv2.imread(p, cv2.IMREAD_GRAYSCALE)\<close>: \<^verbatim>\<open>None\<close>, and no exception, when the file is
  missing or cannot be decoded.
\<close>

definition cv2_imread :: "filesystem \<Rightarrow> path \<Rightarrow> image option" where
  "cv2_imread fs p =
     (case map_of fs p of Some (File (ImageData im)) \<Rightarrow> Some im | _ \<Rightarrow> None)"

text \<open>
  \<^verbatim>\<open>cv2.threshold(image, 0, 255, cv2.THRESH_BINARY + cv2.THRESH_OTSU)\<close>: the binding reads
  \<^verbatim>\<open>None\<close> as an empty array, which the function refuses; otherwise a pixel above the
  selected threshold becomes 255 and every other pixel 0.
\<close>

definition cv2_threshold_otsu :: "cv2 \<Rightarrow> image option \<Rightarrow> error + pixel \<times> image" where
  "cv2_threshold_otsu cv img =
     (case img of
        None \<Rightarrow> Inl CvError
      | Some im \<Rightarrow>
          if is_empty im then Inl CvError
          else Inr (otsu cv im, map (map (\<lambda>p. if otsu cv im < p then 255 else 0)) im))"

text \<open>
  \<^verbatim>\<open>cv2.findNonZero(binary)\<close>: the points \<open>(x, y)\<close> of the non-zero pixels, row by row;
  \<^verbatim>\<open>None\<close> when there is none.
\<close>

definition nonzero_points :: "image \<Rightarrow> (nat \<times> nat) list" where
  "nonzero_points im =
     concat (map (\<lambda>(y, r). map (\<lambda>(x, p). (x, y)) (filter (\<lambda>(x, p). p \<noteq> 0) (enumerate 0 r)))
                 (enumerate 0 im))"

definition cv2_findNonZero :: "image \<Rightarrow> (nat \<times> nat) list option" where
  "cv2_findNonZero binary =
     (if nonzero_points binary = [] then None else Some (nonzero_points binary))"

text \<open>
  \<^verbatim>\<open>cv2.boundingRect(coords)\<close>: \<open>(x, y, w, h)\<close> of the smallest upright rectangle holding
  the points; \<^verbatim>\<open>None\<close> is read as an empty array, whose rectangle is \<open>(0, 0, 0, 0)\<close>.
\<close>

definition cv2_boundingRect :: "(nat \<times> nat) list option \<Rightarrow> nat \<times> nat \<times> nat \<times> nat" where
  "cv2_boundingRect coords =
     (case coords of
        None \<Rightarrow> (0, 0, 0, 0)
      | Some pts \<Rightarrow>
          if pts = [] then (0, 0, 0, 0)
          else (let xs = map fst pts; ys = map snd pts
                in (Min (set xs), Min (set ys),
                    Max (set xs) - Min (set xs) + 1, Max (set ys) - Min (set ys) + 1)))"

text \<open>The \<^verbatim>\<open>numpy\<close> slice \<^verbatim>\<open>image[y0:y1, x0:x1]\<close> for bounds that are not negative.\<close>

definition slice2d :: "image \<Rightarrow> nat \<Rightarrow> nat \<Rightarrow> nat \<Rightarrow> nat \<Rightarrow> image" where
  "slice2d im y0 y1 x0 x1 = map (\<lambda>r. take (x1 - x0) (drop x0 r)) (take (y1 - y0) (drop y0 im))"

text \<open>
  \<^verbatim>\<open>cv2.resize(src, (w, h), interpolation=m)\<close>: refused for an empty source; otherwise a
  new array of \<open>h\<close> rows and \<open>w\<close> columns, filled by the interpolation.
\<close>

definition cv2_resize :: "cv2 \<Rightarrow> image \<Rightarrow> nat \<times> nat \<Rightarrow> interpolation \<Rightarrow> error + image" where
  "cv2_resize cv src dsize m =
     (if is_empty src then Inl CvError
      else Inr (map (\<lambda>y. map (\<lambda>x. resample cv m src dsize x y) [0..<fst dsize])
                    [0..<snd dsize]))"

text \<open>
  \<^verbatim>\<open>cv2.imwrite(p, img)\<close>: raises for an empty array or an extension without encoder;
  returns \<^verbatim>\<open>False\<close>, writing nothing, when the file cannot be opened for writing (its
  directory is missing, or \<open>p\<close> is a directory); otherwise creates or replaces the file.
\<close>

definition cv2_imwrite ::
  "cv2 \<Rightarrow> filesystem \<Rightarrow> path \<Rightarrow> image \<Rightarrow> (error + bool) \<times> filesystem" where
  "cv2_imwrite cv fs p img =
     (if is_empty img \<or> \<not> has_encoder cv p then (Inl CvError, fs)
      else if parent_exists fs p \<and> map_of fs p \<noteq> Some Dir
      then (Inr True, AList.update p (File (ImageData img)) fs)
      else (Inr False, fs))"

text \<open>\<^verbatim>\<open>Image.open(p).convert('L')\<close> of PIL.\<close>

definition pil_open_L :: "filesystem \<Rightarrow> path \<Rightarrow> error + image" where
  "pil_open_L fs p =
     (case map_of fs p of
        None \<Rightarrow> Inl FileNotFoundError
      | Some Dir \<Rightarrow> Inl IsADirectoryError
      | Some (File OtherData) \<Rightarrow> Inl UnidentifiedImageError
      | Some (File (ImageData im)) \<Rightarrow> Inr im)"

section \<open>The dataset object\<close>

text \<open>
  The attributes \<^verbatim>\<open>ADNIDataset.__init__\<close> sets. The transform is owned by the caller;
  \<open>None\<close> is Python's \<^verbatim>\<open>transform=None\<close>.
\<close>

record 't ADNIDataset =
  root :: path
  ad_dir :: path
  nc_dir :: path
  ad_processed_dir :: path
  nc_processed_dir :: path
  ad_images :: "path list"
  nc_images :: "path list"
  images :: "path list"
  labels :: "int list"
  transform :: "(image \<Rightarrow> 't) option"

text \<open>\<^verbatim>\<open>ADNIDataset.__len__\<close>\<close>

definition len :: "'t ADNIDataset \<Rightarrow> nat" where
  "len self = length (images self)"

text \<open>
  Indexing a Python list, \<^verbatim>\<open>xs[i]\<close>: a negative index counts from the end, and an index
  outside \<open>-n..n-1\<close> raises \<^verbatim>\<open>IndexError\<close>.
\<close>

definition list_getitem :: "'a list \<Rightarrow> int \<Rightarrow> error + 'a" where
  "list_getitem xs i =
     (if 0 \<le> i \<and> i < int (length xs) then Inr (xs ! nat i)
      else if - int (length xs) \<le> i \<and> i < 0 then Inr (xs ! nat (i + int (length xs)))
      else Inl IndexError)"

subsection \<open>Preprocessing\<close>

text \<open>
  \<^verbatim>\<open>ADNIDataset._crop_brain_region(image)\<close>. The argument is what \<^verbatim>\<open>cv2.imread\<close> returned,
  so it may be \<^verbatim>\<open>None\<close> (which the thresholding refuses already; subscripting \<^verbatim>\<open>None\<close>
  would raise \<^verbatim>\<open>TypeError\<close>).
\<close>

definition crop_brain_region :: "cv2 \<Rightarrow> image option \<Rightarrow> error + image" where
  "crop_brain_region cv img =
     (case cv2_threshold_otsu cv img of
        Inl e \<Rightarrow> Inl e
      | Inr (t, binary) \<Rightarrow>
          (let coords = cv2_findNonZero binary
           in case cv2_boundingRect coords of
                (x, y, w, h) \<Rightarrow>
                  (case img of
                     None \<Rightarrow> Inl TypeError
                   | Some im \<Rightarrow> Inr (slice2d im y (y + h) x (x + w)))))"

text \<open>\<^verbatim>\<open>ADNIDataset._process_image(input_path, output_path)\<close>. The value that
  \<^verbatim>\<open>cv2.imwrite\<close> returns is dropped, as in the source.\<close>

definition process_image ::
  "cv2 \<Rightarrow> filesystem \<Rightarrow> path \<Rightarrow> path \<Rightarrow> (error + unit) \<times> filesystem" where
  "process_image cv fs input_path output_path =
     (let img = cv2_imread fs input_path
      in case crop_brain_region cv img of
           Inl e \<Rightarrow> (Inl e, fs)
         | Inr cropped \<Rightarrow>
             (case cv2_resize cv cropped (210, 210) INTER_CUBIC of
                Inl e \<Rightarrow> (Inl e, fs)
              | Inr resized \<Rightarrow>
                  (case cv2_imwrite cv fs output_path resized of
                     (Inl e, fs') \<Rightarrow> (Inl e, fs')
                   | (Inr written, fs') \<Rightarrow> (Inr (), fs'))))"

text \<open>\<^verbatim>\<open>filename.lower().endswith(('.png', '.jpg', '.jpeg'))\<close>\<close>

definition has_image_extension :: "string \<Rightarrow> bool" where
  "has_image_extension filename =
     (endswith (lower filename) ''.png'' \<or> endswith (lower filename) ''.jpg''
      \<or> endswith (lower filename) ''.jpeg'')"

text \<open>
  The loop of \<^verbatim>\<open>ADNIDataset._process_directory\<close> over the names that \<^verbatim>\<open>os.listdir\<close>
  returned before the loop started; the first failure ends it.
\<close>

fun process_files ::
  "cv2 \<Rightarrow> filesystem \<Rightarrow> path \<Rightarrow> path \<Rightarrow> string list \<Rightarrow> (error + unit) \<times> filesystem" where
  "process_files cv fs input_dir output_dir [] = (Inr (), fs)"
| "process_files cv fs input_dir output_dir (filename # rest) =
     (if has_image_extension filename
      then (case process_image cv fs (os_path_join input_dir filename)
                   (os_path_join output_dir filename) of
              (Inl e, fs') \<Rightarrow> (Inl e, fs')
            | (Inr u, fs') \<Rightarrow> process_files cv fs' input_dir output_dir rest)
      else process_files cv fs input_dir output_dir rest)"

text \<open>\<^verbatim>\<open>ADNIDataset._process_directory(input_dir, output_dir)\<close>\<close>

definition process_directory ::
  "cv2 \<Rightarrow> filesystem \<Rightarrow> path \<Rightarrow> path \<Rightarrow> (error + unit) \<times> filesystem" where
  "process_directory cv fs input_dir output_dir =
     (case os_listdir fs input_dir of
        Inl e \<Rightarrow> (Inl e, fs)
      | Inr names \<Rightarrow> process_files cv fs input_dir output_dir names)"

text \<open>
  One of the two blocks of \<^verbatim>\<open>preprocess_images\<close>:
  \<^verbatim>\<open>
    if not os.path.exists(processed_dir):
        os.makedirs(processed_dir)
        self._process_directory(input_dir, processed_dir)
  \<close>
\<close>

definition preprocess_class ::
  "cv2 \<Rightarrow> filesystem \<Rightarrow> path \<Rightarrow> path \<Rightarrow> (error + unit) \<times> filesystem" where
  "preprocess_class cv fs input_dir processed_dir =
     (if \<not> os_path_exists fs processed_dir
      then (case os_makedirs fs processed_dir of
              (Inl e, fs') \<Rightarrow> (Inl e, fs')
            | (Inr u, fs') \<Rightarrow> process_directory cv fs' input_dir processed_dir)
      else (Inr (), fs))"

text \<open>\<^verbatim>\<open>ADNIDataset.preprocess_images()\<close>: the block for AD, then the block for NC.\<close>

definition preprocess_images ::
  "cv2 \<Rightarrow> 't ADNIDataset \<Rightarrow> filesystem \<Rightarrow> (error + unit) \<times> filesystem" where
  "preprocess_images cv self fs =
     (case preprocess_class cv fs (ad_dir self) (ad_processed_dir self) of
        (Inl e, fs') \<Rightarrow> (Inl e, fs')
      | (Inr u, fs') \<Rightarrow> preprocess_class cv fs' (nc_dir self) (nc_processed_dir self))"

subsection \<open>Construction and access\<close>

text \<open>
  \<^verbatim>\<open>ADNIDataset.__init__(root, split, transform)\<close>. The file system after the call is
  returned also when the construction fails.
\<close>

definition init ::
  "cv2 \<Rightarrow> filesystem \<Rightarrow> path \<Rightarrow> path \<Rightarrow> (image \<Rightarrow> 't) option
     \<Rightarrow> (error + 't ADNIDataset) \<times> filesystem" where
  "init cv fs root_arg split transform_arg =
     (let self =
            \<lparr>root = os_path_join root_arg split,
             ad_dir = os_path_join (os_path_join root_arg split) ''AD'',
             nc_dir = os_path_join (os_path_join root_arg split) ''NC'',
             ad_processed_dir = os_path_join (os_path_join root_arg split) ''AD_processed'',
             nc_processed_dir = os_path_join (os_path_join root_arg split) ''NC_processed'',
             ad_images = [], nc_images = [], images = [], labels = [],
             transform = None\<rparr>
      in case preprocess_images cv self fs of
           (Inl e, fs') \<Rightarrow> (Inl e, fs')
         | (Inr u, fs') \<Rightarrow>
             (case os_listdir fs' (ad_processed_dir self) of
                Inl e \<Rightarrow> (Inl e, fs')
              | Inr ad_names \<Rightarrow>
                  (case os_listdir fs' (nc_processed_dir self) of
                     Inl e \<Rightarrow> (Inl e, fs')
                   | Inr nc_names \<Rightarrow>
                       (let ads = map (os_path_join (ad_processed_dir self)) ad_names;
                            ncs = map (os_path_join (nc_processed_dir self)) nc_names
                        in (Inr (self\<lparr>ad_images := ads, nc_images := ncs,
                                      images := ads @ ncs,
                                      labels := replicate (length ads) 1
                                                @ replicate (length ncs) 0,
                                      transform := transform_arg\<rparr>),
                            fs')))))"

text \<open>
  What \<^verbatim>\<open>__getitem__\<close> returns as the image: the decoded image, or the value of the
  caller's transform on it.
\<close>

datatype 't item = Decoded image | Transformed 't

text \<open>\<^verbatim>\<open>ADNIDataset.__getitem__(idx)\<close> for an integer index.\<close>

definition getitem :: "filesystem \<Rightarrow> 't ADNIDataset \<Rightarrow> int \<Rightarrow> error + 't item \<times> int" where
  "getitem fs self idx =
     (case list_getitem (images self) idx of
        Inl e \<Rightarrow> Inl e
      | Inr img_path \<Rightarrow>
          (case pil_open_L fs img_path of
             Inl e \<Rightarrow> Inl e
           | Inr img \<Rightarrow>
               (let img' = (case transform self of
                              None \<Rightarrow> Decoded img
                            | Some f \<Rightarrow> Transformed (f img))
                in case list_getitem (labels self) idx of
                     Inl e \<Rightarrow> Inl e
                   | Inr label \<Rightarrow> Inr (img', label))))"

section \<open>The splitter\<close>

subsection \<open>What the Python runtime provides\<close>

text \<open>
  A Python \<^verbatim>\<open>float\<close>: a finite value, an infinity or a NaN. Every finite double is a
  real number, so a statement about all \<open>Fin x\<close> covers all finite doubles.
\<close>

datatype pyfloat = Fin real | PosInf | NegInf | NaN

text \<open>
  The parts of the runtime that \<^verbatim>\<open>split_dataset\<close> calls and that are not code of this
  repository are parameters of the model:
  \<^item> \<open>float_mul r n\<close> is the double product \<^verbatim>\<open>split_ratio * dataset_size\<close> (the integer
    converted, the product rounded);
  \<^item> \<open>random_seed s\<close> is the state of the generator after \<^verbatim>\<open>random.seed(s)\<close>;
  \<^item> \<open>randbelow g n\<close> is the draw of \<^verbatim>\<open>Random._randbelow(n)\<close> in state \<open>g\<close>, with the
    state after it.
  The theorems hold for every such runtime; evaluated examples use \<open>example_runtime\<close> below,
  at inputs where the double product is exact.
\<close>

record 'g runtime =
  float_mul :: "pyfloat \<Rightarrow> nat \<Rightarrow> pyfloat"
  random_seed :: "int \<Rightarrow> 'g"
  randbelow :: "'g \<Rightarrow> nat \<Rightarrow> nat \<times> 'g"

text \<open>\<^verbatim>\<open>int(np.floor(x))\<close>: the floor of a finite value; \<^verbatim>\<open>int\<close> raises on the others.\<close>

fun int_floor :: "pyfloat \<Rightarrow> error + int" where
  "int_floor (Fin x) = Inr \<lfloor>x\<rfloor>"
| "int_floor PosInf = Inl OverflowError"
| "int_floor NegInf = Inl OverflowError"
| "int_floor NaN = Inl ValueError"

text \<open>
  \<^verbatim>\<open>random.shuffle(x)\<close> of CPython:
  \<^verbatim>\<open>
    for i in reversed(range(1, len(x))):
        j = randbelow(i + 1)
        x[i], x[j] = x[j], x[i]
  \<close>
  \<open>shuffle_loop rb i x g\<close> runs the iterations \<open>i, i - 1, ..., 1\<close>. Reading \<^verbatim>\<open>x[j]\<close>
  raises \<^verbatim>\<open>IndexError\<close> when \<open>j\<close> is not an index of \<open>x\<close>; the generator has advanced
  by then.
\<close>

fun shuffle_loop ::
  "('g \<Rightarrow> nat \<Rightarrow> nat \<times> 'g) \<Rightarrow> nat \<Rightarrow> 'a list \<Rightarrow> 'g \<Rightarrow> (error + 'a list) \<times> 'g" where
  "shuffle_loop rb 0 x g = (Inr x, g)"
| "shuffle_loop rb (Suc i) x g =
     (case rb g (Suc i + 1) of
        (j, g') \<Rightarrow>
          if j < length x
          then shuffle_loop rb i ((x[Suc i := x ! j])[j := x ! Suc i]) g'
          else (Inl IndexError, g'))"

definition random_shuffle ::
  "'g runtime \<Rightarrow> 'a list \<Rightarrow> 'g \<Rightarrow> (error + 'a list) \<times> 'g" where
  "random_shuffle rt x g = shuffle_loop (randbelow rt) (length x - 1) x g"

text \<open>
  The stop of \<^verbatim>\<open>x[:k]\<close> and the start of \<^verbatim>\<open>x[k:]\<close> for a list of length \<open>n\<close>: a negative
  \<open>k\<close> counts from the end, and the bound is clipped to \<open>0..n\<close>.
\<close>

definition slice_bound :: "int \<Rightarrow> nat \<Rightarrow> nat" where
  "slice_bound k n = (if k < 0 then nat (max 0 (k + int n)) else min (nat k) n)"

text \<open>\<^verbatim>\<open>torch.utils.data.Subset(dataset, indices)\<close>: a view, no data is copied.\<close>

record 't Subset =
  dataset :: "'t ADNIDataset"
  indices :: "nat list"

text \<open>
  \<^verbatim>\<open>split_dataset(dataset, split_ratio, seed)\<close>. The process-wide generator state is an
  argument and is returned, also when the call raises.
\<close>

definition split_dataset ::
  "'g runtime \<Rightarrow> 't ADNIDataset \<Rightarrow> pyfloat \<Rightarrow> int option \<Rightarrow> 'g
     \<Rightarrow> (error + 't Subset \<times> 't Subset) \<times> 'g" where
  "split_dataset rt ds split_ratio seed g =
     (let g1 = (case seed of None \<Rightarrow> g | Some s \<Rightarrow> random_seed rt s);
          dataset_size = len ds;
          idxs = [0..<dataset_size]
      in case int_floor (float_mul rt split_ratio dataset_size) of
           Inl e \<Rightarrow> (Inl e, g1)
         | Inr split \<Rightarrow>
             (case random_shuffle rt idxs g1 of
                (Inl e, g2) \<Rightarrow> (Inl e, g2)
              | (Inr shuffled, g2) \<Rightarrow>
                  (Inr (\<lparr>dataset = ds, indices = take (slice_bound split dataset_size) shuffled\<rparr>,
                        \<lparr>dataset = ds, indices = drop (slice_bound split dataset_size) shuffled\<rparr>),
                   g2)))"

text \<open>
  A runtime for evaluated examples: the exact product (equal to the double product
  whenever that one is exact, as for \<open>1/2\<close> or \<open>3/2\<close> times a small integer) and a
  small congruential generator in place of the Mersenne Twister.
\<close>

fun exact_mul :: "pyfloat \<Rightarrow> nat \<Rightarrow> pyfloat" where
  "exact_mul (Fin x) n = Fin (x * real n)"
| "exact_mul PosInf n = (if n = 0 then NaN else PosInf)"
| "exact_mul NegInf n = (if n = 0 then NaN else NegInf)"
| "exact_mul NaN n = NaN"

definition example_runtime :: "nat runtime" where
  "example_runtime =
     \<lparr>float_mul = exact_mul,
      random_seed = (\<lambda>s. nat \<bar>s\<bar>),
      randbelow = (\<lambda>g n. (g mod n, (5 * g + 3) mod 64))\<rparr>"

text \<open>The contract of \<^verbatim>\<open>_randbelow(n)\<close>: for positive \<open>n\<close> the draw is below \<open>n\<close>.\<close>

definition randbelow_ok :: "'g runtime \<Rightarrow> bool" where
  "randbelow_ok rt = (\<forall>g n. 0 < n \<longrightarrow> fst (randbelow rt g n) < n)"

text \<open>A dataset object with one sample of each class, for evaluated examples.\<close>

definition two_samples :: "image ADNIDataset" where
  "two_samples =
     \<lparr>root = ''d/train'', ad_dir = ''d/train/AD'', nc_dir = ''d/train/NC'',
      ad_processed_dir = ''d/train/AD_processed'', nc_processed_dir = ''d/train/NC_processed'',
      ad_images = [''d/train/AD_processed/a.png''],
      nc_images = [''d/train/NC_processed/b.png''],
      images = [''d/train/AD_processed/a.png'', ''d/train/NC_processed/b.png''],
      labels = [1, 0], transform = None\<rparr>"

section \<open>Specification predicates\<close>

text \<open>
  The words of the claims about the preprocessing, as predicates. A pixel in row \<open>i\<close>
  and column \<open>j\<close> is foreground when it lies above the threshold selected for the image.
\<close>

definition foreground :: "cv2 \<Rightarrow> image \<Rightarrow> nat \<Rightarrow> nat \<Rightarrow> bool" where
  "foreground cv im i j = (i < length im \<and> j < length (im ! i) \<and> otsu cv im < im ! i ! j)"

text \<open>A box \<open>(x, y, w, h)\<close> encloses the foreground when every foreground pixel lies in its
  columns \<open>x..x+w-1\<close> and rows \<open>y..y+h-1\<close>.\<close>

definition encloses :: "cv2 \<Rightarrow> image \<Rightarrow> nat \<times> nat \<times> nat \<times> nat \<Rightarrow> bool" where
  "encloses cv im box =
     (case box of (x, y, w, h) \<Rightarrow>
        \<forall>i j. foreground cv im i j \<longrightarrow> y \<le> i \<and> i < y + h \<and> x \<le> j \<and> j < x + w)"

definition box_within :: "nat \<times> nat \<times> nat \<times> nat \<Rightarrow> nat \<times> nat \<times> nat \<times> nat \<Rightarrow> bool" where
  "box_within box box' =
     (case (box, box') of ((x, y, w, h), (x', y', w', h')) \<Rightarrow>
        x' \<le> x \<and> y' \<le> y \<and> x + w \<le> x' + w' \<and> y + h \<le> y' + h')"

text \<open>The minimal bounding box: it encloses the foreground and lies within every box that
  does.\<close>

definition minimal_box :: "cv2 \<Rightarrow> image \<Rightarrow> nat \<times> nat \<times> nat \<times> nat \<Rightarrow> bool" where
  "minimal_box cv im box =
     (encloses cv im box \<and> (\<forall>box'. encloses cv im box' \<longrightarrow> box_within box box'))"

text \<open>\<open>crop\<close> is the part of \<open>im\<close> inside the box.\<close>

definition cropped_to :: "image \<Rightarrow> image \<Rightarrow> nat \<times> nat \<times> nat \<times> nat \<Rightarrow> bool" where
  "cropped_to crop im box =
     (case box of (x, y, w, h) \<Rightarrow>
        length crop = h \<and> (\<forall>i<h. length (crop ! i) = w
                             \<and> (\<forall>j<w. crop ! i ! j = im ! (y + i) ! (x + j))))"

text \<open>\<open>out\<close> has the size \<open>dsize\<close> (width, height), each pixel interpolated from \<open>src\<close>
  by the method \<open>m\<close>.\<close>

definition resized_from ::
  "cv2 \<Rightarrow> interpolation \<Rightarrow> image \<Rightarrow> nat \<times> nat \<Rightarrow> image \<Rightarrow> bool" where
  "resized_from cv m src dsize out =
     (case dsize of (w, h) \<Rightarrow>
        length out = h \<and> (\<forall>y<h. length (out ! y) = w
                            \<and> (\<forall>x<w. out ! y ! x = resample cv m src dsize x y)))"

text \<open>Nothing of \<open>fs\<close> is removed in \<open>fs'\<close>: a path that exists still exists, and a
  directory is still a directory.\<close>

definition keeps_nodes :: "filesystem \<Rightarrow> filesystem \<Rightarrow> bool" where
  "keeps_nodes fs fs' =
     (\<forall>q. (os_path_exists fs q \<longrightarrow> os_path_exists fs' q)
        \<and> (map_of fs q = Some Dir \<longrightarrow> map_of fs' q = Some Dir))"

section \<open>Example inputs\<close>

text \<open>
  A library for evaluated examples. The example images hold the values 0 and 255
  only, for which Otsu's method as OpenCV computes it selects the threshold 0; the
  resampling is by nearest neighbour (no example evaluates it).
\<close>

definition example_cv :: cv2 where
  "example_cv = \<lparr>otsu = (\<lambda>im. 0),
     resample = (\<lambda>m src dsize x y. src ! (y * height src div snd dsize) ! (x * width src div fst dsize)),
     has_encoder = has_image_extension\<rparr>"

definition bright_square :: image where
  "bright_square = [[0,0,0,0,0],[0,0,255,255,0],[0,0,255,0,0],[0,0,0,0,0]]"

definition black :: image where
  "black = [[0,0],[0,0]]"

definition black_row :: image where
  "black_row = [[0, 0, 0]]"

text \<open>A file system with both processed directories in place.\<close>

definition fs_processed :: filesystem where
  "fs_processed = [(''d/train/AD_processed'', Dir), (''d/train/NC_processed'', Dir),
     (''d/train/AD_processed/a.png'', File (ImageData black)),
     (''d/train/NC_processed/b.png'', File (ImageData bright_square))]"

text \<open>Raw data only, the one image all black.\<close>

definition fs_black :: filesystem where
  "fs_black = [(''d/train/AD'', Dir), (''d/train/AD/notes.txt'', File OtherData),
               (''d/train/AD/a.PNG'', File (ImageData black))]"

text \<open>A raw image with a bright region and the directory for its processed copy.\<close>

definition fs_raw :: filesystem where
  "fs_raw = [(''d/train/AD'', Dir), (''d/train/AD/a.png'', File (ImageData bright_square)),
             (''d/train/AD_processed'', Dir)]"


section \<open>Properties of the splitter\<close>

lemma shuffle_loop_perm:
  assumes rb: "\<And>g n. 0 < n \<Longrightarrow> fst (rb g n) < n"
  shows "i < length x \<or> i = 0 \<Longrightarrow>
         \<exists>y g'. shuffle_loop rb i x g = (Inr y, g') \<and> mset y = mset x"
proof (induction i arbitrary: x g)
  case 0
  then show ?case by simp
next
  case (Suc i)
  obtain j g1 where d: "rb g (Suc i + 1) = (j, g1)" by (cases "rb g (Suc i + 1)")
  have "fst (rb g (Suc i + 1)) < Suc i + 1" by (rule rb) simp
  with d have j: "j < Suc i + 1" by simp
  from Suc.prems have i: "Suc i < length x" by simp
  with j have jl: "j < length x" by simp
  let ?x = "(x[Suc i := x ! j])[j := x ! Suc i]"
  have m: "mset ?x = mset x" using i jl by (simp add: mset_swap)
  have "i < length ?x \<or> i = 0" using i by simp
  from Suc.IH [OF this, of g1] obtain y g' where
    "shuffle_loop rb i ?x g1 = (Inr y, g')" "mset y = mset ?x" by blast
  with d jl m show ?case by simp
qed

lemma random_shuffle_perm:
  assumes "randbelow_ok rt"
  shows "\<exists>y g'. random_shuffle rt x g = (Inr y, g') \<and> mset y = mset x"
  unfolding random_shuffle_def
proof (rule shuffle_loop_perm)
  fix g n show "0 < n \<Longrightarrow> fst (randbelow rt g n) < n"
    using assms by (simp add: randbelow_ok_def)
next
  show "length x - 1 < length x \<or> length x - 1 = 0" by (cases x) auto
qed

lemma split_dataset_Inr:
  assumes ok: "randbelow_ok rt" and k: "int_floor (float_mul rt r (len ds)) = Inr k"
  shows "\<exists>sh g'. split_dataset rt ds r seed g =
           (Inr (\<lparr>dataset = ds, indices = take (slice_bound k (len ds)) sh\<rparr>,
                 \<lparr>dataset = ds, indices = drop (slice_bound k (len ds)) sh\<rparr>), g')
         \<and> mset sh = mset [0..<len ds]"
proof -
  define g1 where "g1 = (case seed of None \<Rightarrow> g | Some s \<Rightarrow> random_seed rt s)"
  from random_shuffle_perm [OF ok, of "[0..<len ds]" g1] obtain sh g' where
    sh: "random_shuffle rt [0..<len ds] g1 = (Inr sh, g')" "mset sh = mset [0..<len ds]"
    by blast
  have "split_dataset rt ds r seed g =
           (Inr (\<lparr>dataset = ds, indices = take (slice_bound k (len ds)) sh\<rparr>,
                 \<lparr>dataset = ds, indices = drop (slice_bound k (len ds)) sh\<rparr>), g')"
    using k sh(1) by (simp add: split_dataset_def g1_def Let_def)
  with sh(2) show ?thesis by blast
qed

lemma slice_bound_le: "slice_bound k n \<le> n"
  unfolding slice_bound_def by (cases "k < 0") auto



lemma example_runtime_ok: "randbelow_ok example_runtime"
  by (simp add: randbelow_ok_def example_runtime_def)


lemma len_two_samples: "len two_samples = 2"
  by (simp add: len_def two_samples_def)

lemma shuffle_two_seed7: "random_shuffle example_runtime [0..<2] 7 = (Inr [0, 1], 38)"
  by code_simp

lemma shuffle_two_seed2: "random_shuffle example_runtime [0..<2] 2 = (Inr [1, 0], 13)"
  by code_simp

lemma example_seed: "random_seed example_runtime s = nat \<bar>s\<bar>"
  by (simp add: example_runtime_def)

lemma example_mul: "float_mul example_runtime (Fin x) n = Fin (x * real n)"
  by (simp add: example_runtime_def)


text \<open>
  C2. With a seed given, two calls of \<^verbatim>\<open>split_dataset\<close> on the same dataset, ratio and
  seed give the same result whatever the state of the global generator before each
  call: the same train indices and the same validation indices, in the same order (and
  the same generator state afterwards).
\<close>

theorem split_dataset_seed_deterministic:
  "split_dataset rt ds r (Some s) g1 = split_dataset rt ds r (Some s) g2"
  by (simp add: split_dataset_def Let_def)

text \<open>
  C9. With a seed given, the process-wide generator state after \<^verbatim>\<open>split_dataset\<close> is
  the state set by \<^verbatim>\<open>random.seed(seed)\<close>, advanced by the draws of the shuffle: the state
  the caller had before is overwritten, and every later draw in the process continues
  from the reseeded state.
\<close>

theorem split_dataset_reseeds_global_state:
  "snd (split_dataset rt ds r (Some s) g) =
     (case int_floor (float_mul rt r (len ds)) of
        Inl e \<Rightarrow> random_seed rt s
      | Inr k \<Rightarrow> snd (random_shuffle rt [0..<len ds] (random_seed rt s)))"
  by (simp add: split_dataset_def Let_def split: sum.split prod.split)

text \<open>
  The theorem of C9 with two samples and seed 7, called in the state 5: the state
  afterwards is 38, and the next draw below 10 is 8, where it was 5 before the call.
\<close>

theorem split_dataset_reseeds_global_state_witness:
  "snd (split_dataset example_runtime two_samples (Fin (1/2)) (Some 7) 5) = 38
   \<and> fst (randbelow example_runtime
            (snd (split_dataset example_runtime two_samples (Fin (1/2)) (Some 7) 5)) 10) = 8
   \<and> fst (randbelow example_runtime 5 10) = 5"
proof -
  have "snd (split_dataset example_runtime two_samples (Fin (1/2)) (Some 7) 5) = 38"
    using split_dataset_reseeds_global_state [of example_runtime two_samples "Fin (1/2)" 7 5]
    by (simp add: len_two_samples example_mul example_seed shuffle_two_seed7
        del: upt_rec_numeral)
  moreover have "fst (randbelow example_runtime 38 10) = 8" by code_simp
  moreover have "fst (randbelow example_runtime 5 10) = 5" by code_simp
  ultimately show ?thesis by simp
qed

text \<open>
  C5 (amended). \<^verbatim>\<open>split_dataset\<close> does not validate the ratio. For every ratio whose
  product with the size is finite (also a ratio outside \<open>(0, 1)\<close>, also when a subset
  comes out empty) it returns two subsets, of sizes \<open>slice_bound k N\<close> and
  \<open>N - slice_bound k N\<close> for \<open>k = floor (r * N)\<close>; it fails only when that product is
  an infinity or a NaN, with the error of \<^verbatim>\<open>int\<close>.
\<close>

theorem split_dataset_no_ratio_check:
  assumes "randbelow_ok rt"
  shows "case int_floor (float_mul rt r (len ds)) of
           Inl e \<Rightarrow> fst (split_dataset rt ds r seed g) = Inl e
         | Inr k \<Rightarrow>
             (\<exists>tr va. fst (split_dataset rt ds r seed g) = Inr (tr, va)
                \<and> length (indices tr) = slice_bound k (len ds)
                \<and> length (indices va) = len ds - slice_bound k (len ds))"
proof (cases "int_floor (float_mul rt r (len ds))")
  case (Inl e)
  then show ?thesis by (simp add: split_dataset_def Let_def)
next
  case (Inr k)
  from split_dataset_Inr [OF assms Inr, of seed g] obtain sh g' where
    eq: "split_dataset rt ds r seed g =
           (Inr (\<lparr>dataset = ds, indices = take (slice_bound k (len ds)) sh\<rparr>,
                 \<lparr>dataset = ds, indices = drop (slice_bound k (len ds)) sh\<rparr>), g')"
    and m: "mset sh = mset [0..<len ds]" by blast
  have l: "length sh = len ds" using m by (metis size_mset length_upt diff_zero)
  show ?thesis using Inr eq l by (simp add: slice_bound_le)
qed

text \<open>The theorem of C5 at the ratio \<open>-1/2\<close>: two subsets of one index each.\<close>

theorem split_dataset_no_ratio_check_witness:
  "\<exists>tr va. fst (split_dataset example_runtime two_samples (Fin (-1/2)) None 5) = Inr (tr, va)
      \<and> length (indices tr) = 1 \<and> length (indices va) = 1"
proof -
  have h: "int_floor (float_mul example_runtime (Fin (-1/2)) (len two_samples)) = Inr (-1)"
    using floor_of_int [of "- 1", where ?'a = real] by (simp add: example_mul len_two_samples)
  have sb: "slice_bound (-1) 2 = 1"
    by (simp add: slice_bound_def)
  show ?thesis
    using split_dataset_no_ratio_check [OF example_runtime_ok, where r = "Fin (-1/2)" and ds = two_samples
      and seed = None and g = 5]
    unfolding h by (simp add: sb len_two_samples)
qed

text \<open>
  C5 as stated fails: the ratio 1 is outside the open interval and leaves the second
  subset empty, and the call returns.
\<close>

theorem split_dataset_ratio_one_counterexample:
  "fst (split_dataset example_runtime two_samples (Fin 1) (Some 2) 0) =
     Inr (\<lparr>dataset = two_samples, indices = [1, 0]\<rparr>, \<lparr>dataset = two_samples, indices = []\<rparr>)"
  unfolding split_dataset_def Let_def len_two_samples example_mul example_seed
  by (simp add: shuffle_two_seed7 shuffle_two_seed2 slice_bound_def del: upt_rec_numeral)


section \<open>The file system only grows\<close>

lemma keeps_nodes_refl: "keeps_nodes fs fs"
  by (simp add: keeps_nodes_def)

lemma keeps_nodes_trans: "keeps_nodes a b \<Longrightarrow> keeps_nodes b c \<Longrightarrow> keeps_nodes a c"
  by (simp add: keeps_nodes_def)

lemma imwrite_keeps: "cv2_imwrite cv fs p img = (r, fs') \<Longrightarrow> keeps_nodes fs fs'"
  by (auto simp: cv2_imwrite_def keeps_nodes_def os_path_exists_def update_conv'
      split: if_splits)

lemma process_image_keeps: "process_image cv fs i p = (r, fs') \<Longrightarrow> keeps_nodes fs fs'"
  by (auto simp: process_image_def Let_def keeps_nodes_refl
      split: sum.splits prod.splits dest: imwrite_keeps)

lemma process_files_keeps:
  "process_files cv fs i p names = (r, fs') \<Longrightarrow> keeps_nodes fs fs'"
proof (induction names arbitrary: fs)
  case Nil
  then show ?case by (simp add: keeps_nodes_refl)
next
  case (Cons f rest)
  show ?case
  proof (cases "has_image_extension f")
    case False
    with Cons show ?thesis by simp
  next
    case True
    obtain r1 fs1 where p: "process_image cv fs (os_path_join i f) (os_path_join p f) = (r1, fs1)"
      by (cases "process_image cv fs (os_path_join i f) (os_path_join p f)")
    have k1: "keeps_nodes fs fs1" using p by (rule process_image_keeps)
    show ?thesis
    proof (cases r1)
      case (Inl e)
      with Cons.prems True p k1 show ?thesis by simp
    next
      case (Inr u)
      with Cons.prems True p have "process_files cv fs1 i p rest = (r, fs')" by simp
      then have "keeps_nodes fs1 fs'" by (rule Cons.IH)
      with k1 show ?thesis by (rule keeps_nodes_trans)
    qed
  qed
qed

lemma process_directory_keeps:
  "process_directory cv fs i p = (r, fs') \<Longrightarrow> keeps_nodes fs fs'"
  by (auto simp: process_directory_def keeps_nodes_refl split: sum.splits
      dest: process_files_keeps)

lemma makedirs_new:
  "\<not> os_path_exists fs p \<Longrightarrow> os_makedirs fs p = (Inr (), fs @ [(p, Dir)])"
  by (simp add: os_makedirs_def)

lemma makedirs_keeps: "\<not> os_path_exists fs p \<Longrightarrow> keeps_nodes fs (fs @ [(p, Dir)])"
  by (auto simp: keeps_nodes_def os_path_exists_def map_add_def split: option.splits)


lemma preprocess_class_skip:
  "os_path_exists fs pd \<Longrightarrow> preprocess_class cv fs i pd = (Inr (), fs)"
  by (simp add: preprocess_class_def)

lemma preprocess_class_new:
  "\<not> os_path_exists fs pd \<Longrightarrow>
     preprocess_class cv fs i pd = process_directory cv (fs @ [(pd, Dir)]) i pd"
  by (simp add: preprocess_class_def makedirs_new)

lemma preprocess_class_keeps:
  "preprocess_class cv fs i pd = (r, fs') \<Longrightarrow> keeps_nodes fs fs'"
proof (cases "os_path_exists fs pd")
  case True
  assume "preprocess_class cv fs i pd = (r, fs')"
  with True show ?thesis by (simp add: preprocess_class_skip keeps_nodes_refl)
next
  case False
  assume "preprocess_class cv fs i pd = (r, fs')"
  with False have "process_directory cv (fs @ [(pd, Dir)]) i pd = (r, fs')"
    by (simp add: preprocess_class_new)
  then have "keeps_nodes (fs @ [(pd, Dir)]) fs'" by (rule process_directory_keeps)
  with makedirs_keeps [OF False] show ?thesis by (rule keeps_nodes_trans)
qed


section \<open>Evaluated facts about the examples\<close>

lemma join_d_train: "os_path_join ''d'' ''train'' = ''d/train''"
  by code_simp

lemma join_ad_processed: "os_path_join ''d/train'' ''AD_processed'' = ''d/train/AD_processed''"
  by code_simp

lemma join_nc_processed: "os_path_join ''d/train'' ''NC_processed'' = ''d/train/NC_processed''"
  by code_simp

lemma join_ad: "os_path_join ''d/train'' ''AD'' = ''d/train/AD''"
  by code_simp

lemma join_nc: "os_path_join ''d/train'' ''NC'' = ''d/train/NC''"
  by code_simp

lemma join_a: "os_path_join ''d/train/AD_processed'' ''a.png'' = ''d/train/AD_processed/a.png''"
  by code_simp

lemma join_b: "os_path_join ''d/train/NC_processed'' ''b.png'' = ''d/train/NC_processed/b.png''"
  by code_simp

lemmas joins = join_d_train join_ad_processed join_nc_processed join_ad join_nc join_a join_b

lemma exists_fs_processed:
  "os_path_exists fs_processed ''d/train/AD_processed''"
  "os_path_exists fs_processed ''d/train/NC_processed''"
  by code_simp+

lemma listdir_fs_processed:
  "os_listdir fs_processed ''d/train/AD_processed'' = Inr [''a.png'']"
  "os_listdir fs_processed ''d/train/NC_processed'' = Inr [''b.png'']"
  by code_simp+

lemma two_samples_dirs:
  "ad_dir two_samples = ''d/train/AD''" "nc_dir two_samples = ''d/train/NC''"
  "ad_processed_dir two_samples = ''d/train/AD_processed''"
  "nc_processed_dir two_samples = ''d/train/NC_processed''"
  by (simp_all add: two_samples_def)

lemma exists_two_samples_dirs:
  "os_path_exists fs_processed (ad_processed_dir two_samples)"
  "os_path_exists fs_processed (nc_processed_dir two_samples)"
  by (simp_all add: two_samples_dirs exists_fs_processed)

section \<open>Preprocessing and the processed directories\<close>

lemma init_no_write:
  assumes "os_path_exists fs (os_path_join (os_path_join root_arg split) ''AD_processed'')"
    and "os_path_exists fs (os_path_join (os_path_join root_arg split) ''NC_processed'')"
  shows "snd (init cv fs root_arg split tr) = fs"
  using assms
  by (simp add: init_def Let_def preprocess_images_def preprocess_class_skip
      split: sum.split)

text \<open>
  C6. The only test is \<^verbatim>\<open>os.path.exists\<close> of the processed directory, whatever the path
  holds. When the processed directory of AD exists, \<^verbatim>\<open>preprocess_images\<close> does exactly
  what the block for NC does on the same file system, and the other way round; when
  both exist it returns with the file system as it was, and so does the whole
  construction of the dataset.
\<close>

theorem preprocess_skips_existing:
  "(os_path_exists fs (ad_processed_dir self) \<longrightarrow>
      preprocess_images cv self fs = preprocess_class cv fs (nc_dir self) (nc_processed_dir self))
   \<and> (os_path_exists fs (nc_processed_dir self) \<longrightarrow>
      preprocess_images cv self fs = preprocess_class cv fs (ad_dir self) (ad_processed_dir self))
   \<and> (os_path_exists fs (ad_processed_dir self) \<and> os_path_exists fs (nc_processed_dir self) \<longrightarrow>
      preprocess_images cv self fs = (Inr (), fs))
   \<and> (os_path_exists fs (os_path_join (os_path_join root_arg split) ''AD_processed'')
       \<and> os_path_exists fs (os_path_join (os_path_join root_arg split) ''NC_processed'') \<longrightarrow>
      snd (init cv fs root_arg split tr) = fs)"
proof (intro conjI impI)
  assume "os_path_exists fs (os_path_join (os_path_join root_arg split) ''AD_processed'')
       \<and> os_path_exists fs (os_path_join (os_path_join root_arg split) ''NC_processed'')"
  then show "snd (init cv fs root_arg split tr) = fs" by (simp add: init_no_write)
next
  assume "os_path_exists fs (ad_processed_dir self)"
  then show "preprocess_images cv self fs
      = preprocess_class cv fs (nc_dir self) (nc_processed_dir self)"
    by (simp add: preprocess_images_def preprocess_class_skip)
next
  assume nc: "os_path_exists fs (nc_processed_dir self)"
  obtain r fs' where p: "preprocess_class cv fs (ad_dir self) (ad_processed_dir self) = (r, fs')"
    by (cases "preprocess_class cv fs (ad_dir self) (ad_processed_dir self)")
  then have "keeps_nodes fs fs'" by (rule preprocess_class_keeps)
  with nc have "os_path_exists fs' (nc_processed_dir self)" by (simp add: keeps_nodes_def)
  then have "preprocess_class cv fs' (nc_dir self) (nc_processed_dir self) = (Inr (), fs')"
    by (rule preprocess_class_skip)
  with p show "preprocess_images cv self fs
      = preprocess_class cv fs (ad_dir self) (ad_processed_dir self)"
    by (cases r) (simp_all add: preprocess_images_def)
next
  assume "os_path_exists fs (ad_processed_dir self) \<and> os_path_exists fs (nc_processed_dir self)"
  then show "preprocess_images cv self fs = (Inr (), fs)"
    by (simp add: preprocess_images_def preprocess_class_skip)
qed

text \<open>The theorem of C6 on a file system that holds both processed directories.\<close>

theorem preprocess_skips_existing_witness:
  "preprocess_images example_cv two_samples fs_processed = (Inr (), fs_processed)
   \<and> snd (init example_cv fs_processed ''d'' ''train'' (None :: (image \<Rightarrow> image) option))
       = fs_processed"
proof -
  note T = preprocess_skips_existing [where fs = fs_processed and self = two_samples
      and cv = example_cv and root_arg = "''d''" and split = "''train''"
      and tr = "None :: (image \<Rightarrow> image) option"]
  have "os_path_exists fs_processed (os_path_join (os_path_join ''d'' ''train'') ''AD_processed'')"
    "os_path_exists fs_processed (os_path_join (os_path_join ''d'' ''train'') ''NC_processed'')"
    by (simp_all add: joins exists_fs_processed)
  with T exists_two_samples_dirs show ?thesis by blast
qed

text \<open>A block fails, for one, when the input directory is missing; the processed directory
  has been created by then.\<close>

lemma preprocess_class_missing_input:
  assumes "\<not> os_path_exists fs pd" and "\<not> os_path_exists fs inp" and "inp \<noteq> pd"
  shows "preprocess_class cv fs inp pd = (Inl FileNotFoundError, fs @ [(pd, Dir)])"
proof -
  from assms(2,3) have m: "map_of (fs @ [(pd, Dir)]) inp = None"
    by (simp add: os_path_exists_def map_add_def)
  have "process_directory cv (fs @ [(pd, Dir)]) inp pd
      = (Inl FileNotFoundError, fs @ [(pd, Dir)])"
    unfolding process_directory_def os_listdir_def m by simp
  with assms(1) show ?thesis by (simp add: preprocess_class_new)
qed






section \<open>Construction and access\<close>

lemma init_Inr:
  assumes "init cv fs root_arg split tr = (Inr ds, fs')"
  shows "\<exists>ad_names nc_names.
           os_listdir fs' (ad_processed_dir ds) = Inr ad_names
         \<and> os_listdir fs' (nc_processed_dir ds) = Inr nc_names
         \<and> ad_processed_dir ds = os_path_join (os_path_join root_arg split) ''AD_processed''
         \<and> nc_processed_dir ds = os_path_join (os_path_join root_arg split) ''NC_processed''
         \<and> ad_images ds = map (os_path_join (ad_processed_dir ds)) ad_names
         \<and> nc_images ds = map (os_path_join (nc_processed_dir ds)) nc_names
         \<and> images ds = ad_images ds @ nc_images ds
         \<and> labels ds = replicate (length (ad_images ds)) 1 @ replicate (length (nc_images ds)) 0
         \<and> transform ds = tr"
  using assms
  by (auto simp: init_def Let_def split: prod.splits sum.splits)

lemma list_getitem_nat: "i < length xs \<Longrightarrow> list_getitem xs (int i) = Inr (xs ! i)"
  by (simp add: list_getitem_def)

lemma label_nth:
  "i < a + b \<Longrightarrow> (replicate a (1::int) @ replicate b 0) ! i = (if i < a then 1 else 0)"
  by (simp add: nth_append)

text \<open>
  C3. For every dataset that the constructor returns, the sample paths are the entries
  of the directory \<^verbatim>\<open>AD_processed\<close> in listing order, followed by those of
  \<^verbatim>\<open>NC_processed\<close>. For every index \<open>i\<close> in \<open>0..N-1\<close> and every later state of the file
  system, \<^verbatim>\<open>__getitem__\<close> fails exactly when opening the file \<open>images[i]\<close> fails, and
  otherwise returns the decoded (and transformed) image with the label 1 when \<open>i\<close> is
  an index into the AD part and 0 when it is an index into the NC part.
\<close>

theorem init_order_and_labels:
  assumes "init cv fs root_arg split tr = (Inr ds, fs')"
  shows "(\<exists>ad_names nc_names.
            os_listdir fs' (os_path_join (os_path_join root_arg split) ''AD_processed'') = Inr ad_names
          \<and> os_listdir fs' (os_path_join (os_path_join root_arg split) ''NC_processed'') = Inr nc_names
          \<and> images ds =
              map (os_path_join (os_path_join (os_path_join root_arg split) ''AD_processed'')) ad_names
              @ map (os_path_join (os_path_join (os_path_join root_arg split) ''NC_processed'')) nc_names
          \<and> ad_images ds =
              map (os_path_join (os_path_join (os_path_join root_arg split) ''AD_processed'')) ad_names
          \<and> nc_images ds =
              map (os_path_join (os_path_join (os_path_join root_arg split) ''NC_processed'')) nc_names)
       \<and> (\<forall>fs2 i. i < len ds \<longrightarrow>
            getitem fs2 ds (int i) =
              (case pil_open_L fs2 (images ds ! i) of
                 Inl e \<Rightarrow> Inl e
               | Inr im \<Rightarrow>
                   Inr (case tr of None \<Rightarrow> Decoded im | Some f \<Rightarrow> Transformed (f im),
                        if i < length (ad_images ds) then 1 else 0)))"
proof -
  from init_Inr [OF assms] obtain ad_names nc_names where
    l1: "os_listdir fs' (ad_processed_dir ds) = Inr ad_names" and
    l2: "os_listdir fs' (nc_processed_dir ds) = Inr nc_names" and
    adp: "ad_processed_dir ds = os_path_join (os_path_join root_arg split) ''AD_processed''" and
    ncp: "nc_processed_dir ds = os_path_join (os_path_join root_arg split) ''NC_processed''" and
    ad: "ad_images ds = map (os_path_join (ad_processed_dir ds)) ad_names" and
    nc: "nc_images ds = map (os_path_join (nc_processed_dir ds)) nc_names" and
    im: "images ds = ad_images ds @ nc_images ds" and
    lb: "labels ds = replicate (length (ad_images ds)) 1 @ replicate (length (nc_images ds)) 0" and
    tr: "transform ds = tr"
    by blast
  have first: "\<exists>ad_names nc_names.
            os_listdir fs' (os_path_join (os_path_join root_arg split) ''AD_processed'') = Inr ad_names
          \<and> os_listdir fs' (os_path_join (os_path_join root_arg split) ''NC_processed'') = Inr nc_names
          \<and> images ds =
              map (os_path_join (os_path_join (os_path_join root_arg split) ''AD_processed'')) ad_names
              @ map (os_path_join (os_path_join (os_path_join root_arg split) ''NC_processed'')) nc_names
          \<and> ad_images ds =
              map (os_path_join (os_path_join (os_path_join root_arg split) ''AD_processed'')) ad_names
          \<and> nc_images ds =
              map (os_path_join (os_path_join (os_path_join root_arg split) ''NC_processed'')) nc_names"
    using l1 l2 ad nc im unfolding adp ncp by metis
  have second: "getitem fs2 ds (int i) =
              (case pil_open_L fs2 (images ds ! i) of
                 Inl e \<Rightarrow> Inl e
               | Inr im \<Rightarrow>
                   Inr (case tr of None \<Rightarrow> Decoded im | Some f \<Rightarrow> Transformed (f im),
                        if i < length (ad_images ds) then 1 else 0))"
    if i: "i < len ds" for fs2 i
  proof -
    have n: "i < length (images ds)" using i by (simp add: len_def)
    have ll: "length (labels ds) = length (images ds)" by (simp add: lb im)
    have g1: "list_getitem (images ds) (int i) = Inr (images ds ! i)"
      using n by (rule list_getitem_nat)
    have "i < length (ad_images ds) + length (nc_images ds)" using n by (simp add: im)
    then have "labels ds ! i = (if i < length (ad_images ds) then 1 else 0)"
      unfolding lb by (rule label_nth)
    moreover have "list_getitem (labels ds) (int i) = Inr (labels ds ! i)"
      using n ll by (simp add: list_getitem_nat)
    ultimately have g2: "list_getitem (labels ds) (int i)
        = Inr (if i < length (ad_images ds) then 1 else 0)" by simp
    show ?thesis
      unfolding getitem_def g1 g2 tr by (simp add: Let_def split: sum.split)
  qed
  from first second show ?thesis by blast
qed

lemma init_lengths:
  assumes "init cv fs root_arg split tr = (Inr ds, fs')"
  shows "length (labels ds) = length (images ds)"
  using init_Inr [OF assms] by auto

text \<open>
  C8 (amended). For every constructed dataset of size \<open>N\<close>, an index \<open>idx \<ge> N\<close> or
  \<open>idx < -N\<close> fails with \<^verbatim>\<open>IndexError\<close> and returns no sample, whatever the file system
  holds; an index in \<open>-N..-1\<close> is not refused: it behaves as the index \<open>idx + N\<close>.
\<close>

theorem getitem_index_range:
  assumes "init cv fs root_arg split tr = (Inr ds, fs')"
  shows "(int (len ds) \<le> idx \<or> idx < - int (len ds) \<longrightarrow> getitem fs2 ds idx = Inl IndexError)
       \<and> (- int (len ds) \<le> idx \<and> idx < 0 \<longrightarrow>
            getitem fs2 ds idx = getitem fs2 ds (idx + int (len ds)))"
proof (intro conjI impI)
  assume "int (len ds) \<le> idx \<or> idx < - int (len ds)"
  then have "list_getitem (images ds) idx = Inl IndexError"
    by (auto simp: list_getitem_def len_def)
  then show "getitem fs2 ds idx = Inl IndexError" by (simp add: getitem_def)
next
  assume r: "- int (len ds) \<le> idx \<and> idx < 0"
  have ll: "length (labels ds) = length (images ds)" using assms by (rule init_lengths)
  have a: "list_getitem (images ds) idx = list_getitem (images ds) (idx + int (len ds))"
    using r by (simp add: list_getitem_def len_def)
  have b: "list_getitem (labels ds) idx = list_getitem (labels ds) (idx + int (len ds))"
    using r ll by (simp add: list_getitem_def len_def)
  show "getitem fs2 ds idx = getitem fs2 ds (idx + int (len ds))"
    unfolding getitem_def a b ..
qed

lemma init_fs_processed:
  "init example_cv fs_processed ''d'' ''train'' None = (Inr two_samples, fs_processed)"
  unfolding init_def Let_def joins
  by (simp add: preprocess_images_def preprocess_class_skip exists_fs_processed
      listdir_fs_processed joins two_samples_def)

lemma open_a: "pil_open_L fs_processed ''d/train/AD_processed/a.png'' = Inr black"
  by code_simp

lemma open_b: "pil_open_L fs_processed ''d/train/NC_processed/b.png'' = Inr bright_square"
  by code_simp

lemma two_samples_fields:
  "images two_samples ! 0 = ''d/train/AD_processed/a.png''"
  "images two_samples ! Suc 0 = ''d/train/NC_processed/b.png''"
  "length (ad_images two_samples) = 1"
  by (simp_all add: two_samples_def)

text \<open>
  C8 as stated fails: the index \<open>-1\<close> is outside \<open>0..N-1\<close>, and \<^verbatim>\<open>__getitem__\<close> returns
  the last sample.
\<close>

theorem getitem_negative_index_counterexample:
  "getitem fs_processed two_samples (- 1) = Inr (Decoded bright_square, 0)"
  by (simp add: getitem_def list_getitem_def two_samples_def open_b)

text \<open>The theorem of C3 on the dataset built from \<open>fs_processed\<close>.\<close>

theorem init_order_and_labels_witness:
  "images two_samples = [''d/train/AD_processed/a.png'', ''d/train/NC_processed/b.png'']
   \<and> getitem fs_processed two_samples 0 = Inr (Decoded black, 1)
   \<and> getitem fs_processed two_samples 1 = Inr (Decoded bright_square, 0)"
proof -
  note T = init_order_and_labels [OF init_fs_processed, THEN conjunct2, rule_format]
  have "getitem fs_processed two_samples (int 0) = Inr (Decoded black, 1)"
    using T [where i = 0 and ?fs2.0 = fs_processed]
    by (simp add: len_two_samples two_samples_fields open_a)
  moreover have "getitem fs_processed two_samples (int 1) = Inr (Decoded bright_square, 0)"
    using T [where i = 1 and ?fs2.0 = fs_processed]
    by (simp add: len_two_samples two_samples_fields open_b)
  ultimately show ?thesis by (simp add: two_samples_def)
qed

text \<open>The theorem of C8 at the indices 2, -3 and -2 of a dataset of two samples.\<close>

theorem getitem_index_range_witness:
  "getitem fs_processed two_samples 2 = Inl IndexError
   \<and> getitem fs_processed two_samples (- 3) = Inl IndexError
   \<and> getitem fs_processed two_samples (- 2) = getitem fs_processed two_samples 0"
  using getitem_index_range [OF init_fs_processed, of 2 fs_processed]
    getitem_index_range [OF init_fs_processed, of "- 3" fs_processed]
    getitem_index_range [OF init_fs_processed, of "- 2" fs_processed]
  by (simp add: len_two_samples)

section \<open>The transform of one image\<close>

lemma row_points_iff:
  "(j, i) \<in> set (map (\<lambda>(x, p). (x, y)) (filter (\<lambda>(x, p). p \<noteq> 0) (enumerate 0 r)))
     \<longleftrightarrow> i = y \<and> j < length r \<and> r ! j \<noteq> 0"
proof
  assume "(j, i) \<in> set (map (\<lambda>(x, p). (x, y)) (filter (\<lambda>(x, p). p \<noteq> 0) (enumerate 0 r)))"
  then show "i = y \<and> j < length r \<and> r ! j \<noteq> 0"
    by (auto simp: in_set_enumerate_eq)
next
  assume a: "i = y \<and> j < length r \<and> r ! j \<noteq> 0"
  then have "(j, r ! j) \<in> set (filter (\<lambda>(x, p). p \<noteq> 0) (enumerate 0 r))"
    by (simp add: in_set_enumerate_eq)
  then have "(\<lambda>(x, p). (x, y)) (j, r ! j)
      \<in> set (map (\<lambda>(x, p). (x, y)) (filter (\<lambda>(x, p). p \<noteq> 0) (enumerate 0 r)))"
    by (simp only: set_map) (rule imageI)
  with a show "(j, i) \<in> set (map (\<lambda>(x, p). (x, y)) (filter (\<lambda>(x, p). p \<noteq> 0) (enumerate 0 r)))"
    by simp
qed

lemma nonzero_points_iff:
  "(j, i) \<in> set (nonzero_points b) \<longleftrightarrow> i < length b \<and> j < length (b ! i) \<and> b ! i ! j \<noteq> 0"
proof -
  have "(j, i) \<in> set (nonzero_points b)
      \<longleftrightarrow> (\<exists>yr \<in> set (enumerate 0 b).
             (j, i) \<in> set (map (\<lambda>(x, p). (x, fst yr))
                               (filter (\<lambda>(x, p). p \<noteq> 0) (enumerate 0 (snd yr)))))"
    by (simp add: nonzero_points_def case_prod_beta)
  also have "\<dots> \<longleftrightarrow> (\<exists>yr \<in> set (enumerate 0 b).
                        i = fst yr \<and> j < length (snd yr) \<and> snd yr ! j \<noteq> 0)"
    by (simp only: row_points_iff)
  also have "\<dots> \<longleftrightarrow> i < length b \<and> j < length (b ! i) \<and> b ! i ! j \<noteq> 0"
  proof
    assume "\<exists>yr \<in> set (enumerate 0 b). i = fst yr \<and> j < length (snd yr) \<and> snd yr ! j \<noteq> 0"
    then show "i < length b \<and> j < length (b ! i) \<and> b ! i ! j \<noteq> 0"
      by (auto simp: in_set_enumerate_eq)
  next
    assume a: "i < length b \<and> j < length (b ! i) \<and> b ! i ! j \<noteq> 0"
    then have "(i, b ! i) \<in> set (enumerate 0 b)" by (simp add: in_set_enumerate_eq)
    moreover have "i = fst (i, b ! i) \<and> j < length (snd (i, b ! i)) \<and> snd (i, b ! i) ! j \<noteq> 0"
      using a by simp
    ultimately show "\<exists>yr \<in> set (enumerate 0 b).
        i = fst yr \<and> j < length (snd yr) \<and> snd yr ! j \<noteq> 0" by (rule bexI [rotated])
  qed
  finally show ?thesis .
qed

lemma binary_points_iff:
  "(j, i) \<in> set (nonzero_points (map (map (\<lambda>p. if otsu cv im < p then 255 else 0)) im))
     \<longleftrightarrow> foreground cv im i j"
  by (auto simp: nonzero_points_iff foreground_def split: if_splits)

lemma threshold_Some:
  "\<not> is_empty im \<Longrightarrow>
     cv2_threshold_otsu cv (Some im)
       = Inr (otsu cv im, map (map (\<lambda>p. if otsu cv im < p then 255 else 0)) im)"
  by (simp add: cv2_threshold_otsu_def)

lemma boundingRect_minimal:
  assumes pts: "pts \<noteq> []"
    and fg: "\<And>i j. (j, i) \<in> set pts \<longleftrightarrow> foreground cv im i j"
  shows "minimal_box cv im (cv2_boundingRect (Some pts))"
proof -
  let ?xs = "set (map fst pts)" and ?ys = "set (map snd pts)"
  have fin: "finite ?xs" "finite ?ys" by simp_all
  have ne: "?xs \<noteq> {}" "?ys \<noteq> {}" using pts by simp_all
  have box: "cv2_boundingRect (Some pts)
      = (Min ?xs, Min ?ys, Max ?xs - Min ?xs + 1, Max ?ys - Min ?ys + 1)"
    using pts by (simp add: cv2_boundingRect_def Let_def)
  have mm: "Min ?xs \<le> Max ?xs" "Min ?ys \<le> Max ?ys"
    using fin ne by (simp_all add: Min_le_iff)
  have inx: "j \<in> ?xs" and iny: "i \<in> ?ys" if "foreground cv im i j" for i j
  proof -
    from that have "(j, i) \<in> set pts" by (simp add: fg)
    then show "j \<in> ?xs" "i \<in> ?ys" by force+
  qed
  have enc: "encloses cv im (cv2_boundingRect (Some pts))"
  proof -
    have "Min ?ys \<le> i \<and> i < Min ?ys + (Max ?ys - Min ?ys + 1)
        \<and> Min ?xs \<le> j \<and> j < Min ?xs + (Max ?xs - Min ?xs + 1)"
      if f: "foreground cv im i j" for i j
    proof -
      have "Min ?ys \<le> i" using iny [OF f] fin by simp
      moreover have "Min ?xs \<le> j" using inx [OF f] fin by simp
      moreover have "i \<le> Max ?ys" using iny [OF f] fin by simp
      moreover have "j \<le> Max ?xs" using inx [OF f] fin by simp
      ultimately show ?thesis using mm by linarith
    qed
    then show ?thesis unfolding box encloses_def prod.case by blast
  qed
  have least: "box_within (cv2_boundingRect (Some pts)) box'" if e: "encloses cv im box'" for box'
  proof -
    obtain x' y' w' h' where b': "box' = (x', y', w', h')" by (cases box') auto
    have all: "y' \<le> i \<and> i < y' + h' \<and> x' \<le> j \<and> j < x' + w'" if "(j, i) \<in> set pts" for i j
      using e that by (simp add: encloses_def b' fg)
    have "Min ?xs \<in> ?xs" using fin(1) ne(1) by (rule Min_in)
    then obtain i1 where "(Min ?xs, i1) \<in> set pts" by force
    from all [OF this] have 1: "x' \<le> Min ?xs" by simp
    have "Max ?xs \<in> ?xs" using fin(1) ne(1) by (rule Max_in)
    then obtain i2 where "(Max ?xs, i2) \<in> set pts" by force
    from all [OF this] have 2: "Max ?xs < x' + w'" by simp
    have "Min ?ys \<in> ?ys" using fin(2) ne(2) by (rule Min_in)
    then obtain j1 where "(j1, Min ?ys) \<in> set pts" by force
    from all [OF this] have 3: "y' \<le> Min ?ys" by simp
    have "Max ?ys \<in> ?ys" using fin(2) ne(2) by (rule Max_in)
    then obtain j2 where "(j2, Max ?ys) \<in> set pts" by force
    from all [OF this] have 4: "Max ?ys < y' + h'" by simp
    show ?thesis unfolding box b' box_within_def using 1 2 3 4 mm by simp
  qed
  from enc least show ?thesis by (simp add: minimal_box_def)
qed

lemma well_formed_row: "well_formed im \<Longrightarrow> i < length im \<Longrightarrow> length (im ! i) = width im"
  by (simp add: well_formed_def)

lemma whole_image_encloses:
  "well_formed im \<Longrightarrow> encloses cv im (0, 0, width im, height im)"
  by (auto simp: encloses_def foreground_def height_def dest: well_formed_row)

lemma slice2d_cropped_to:
  assumes wf: "well_formed im" and x: "x + w \<le> width im" and y: "y + h \<le> height im"
  shows "cropped_to (slice2d im y (y + h) x (x + w)) im (x, y, w, h)"
proof -
  have len: "length (slice2d im y (y + h) x (x + w)) = h"
    using y by (simp add: slice2d_def height_def)
  have row: "slice2d im y (y + h) x (x + w) ! i = take w (drop x (im ! (y + i)))" if "i < h" for i
    using that y by (simp add: slice2d_def height_def)
  have rl: "length (im ! (y + i)) = width im" if "i < h" for i
    using that y wf by (simp add: well_formed_row height_def)
  show ?thesis
    unfolding cropped_to_def prod.case
  proof (intro conjI allI impI)
    show "length (slice2d im y (y + h) x (x + w)) = h" by (rule len)
  next
    fix i assume i: "i < h"
    show "length (slice2d im y (y + h) x (x + w) ! i) = w"
      using x row [OF i] rl [OF i] by simp
  next
    fix i j assume i: "i < h" and j: "j < w"
    show "slice2d im y (y + h) x (x + w) ! i ! j = im ! (y + i) ! (x + j)"
      using x j row [OF i] rl [OF i] by simp
  qed
qed

lemma cropped_to_not_empty:
  assumes "cropped_to crop im (x, y, w, h)" and "0 < w" and "0 < h"
  shows "\<not> is_empty crop"
proof -
  from assms have l: "length crop = h" and r: "length (crop ! 0) = w"
    by (simp_all add: cropped_to_def)
  from l assms(3) obtain r0 rest where c: "crop = r0 # rest" by (cases crop) auto
  with r assms(2) l assms(3) show ?thesis
    by (simp add: is_empty_def height_def width_def)
qed

lemma crop_brain_region_foreground:
  assumes wf: "well_formed im" and fg: "foreground cv im i0 j0"
  shows "\<exists>box crop. crop_brain_region cv (Some im) = Inr crop
           \<and> minimal_box cv im box \<and> cropped_to crop im box \<and> \<not> is_empty crop"
proof -
  let ?B = "map (map (\<lambda>p. if otsu cv im < p then 255 else 0)) im"
  let ?pts = "nonzero_points ?B"
  have ne: "\<not> is_empty im" using wf by (simp add: well_formed_def)
  have th: "cv2_threshold_otsu cv (Some im) = Inr (otsu cv im, ?B)"
    using ne by (rule threshold_Some)
  have "(j0, i0) \<in> set ?pts" using fg by (simp add: binary_points_iff)
  then have pne: "?pts \<noteq> []" by auto
  then have fnz: "cv2_findNonZero ?B = Some ?pts" by (simp add: cv2_findNonZero_def)
  obtain x y w h where box: "cv2_boundingRect (Some ?pts) = (x, y, w, h)"
    by (cases "cv2_boundingRect (Some ?pts)") auto
  have "minimal_box cv im (cv2_boundingRect (Some ?pts))"
    using pne by (rule boundingRect_minimal) (rule binary_points_iff)
  then have mb: "minimal_box cv im (x, y, w, h)" by (simp add: box)
  then have enc: "encloses cv im (x, y, w, h)" by (simp add: minimal_box_def)
  with fg have "y \<le> i0 \<and> i0 < y + h \<and> x \<le> j0 \<and> j0 < x + w" by (simp add: encloses_def)
  then have pos: "0 < w" "0 < h" by linarith+
  from mb whole_image_encloses [OF wf, of cv]
  have "box_within (x, y, w, h) (0, 0, width im, height im)"
    by (simp add: minimal_box_def)
  then have bx: "x + w \<le> width im" and by': "y + h \<le> height im"
    by (simp_all add: box_within_def)
  let ?crop = "slice2d im y (y + h) x (x + w)"
  have ct: "cropped_to ?crop im (x, y, w, h)" using wf bx by' by (rule slice2d_cropped_to)
  have cne: "\<not> is_empty ?crop" using ct pos by (rule cropped_to_not_empty)
  have "crop_brain_region cv (Some im) = Inr ?crop"
    by (simp add: crop_brain_region_def th fnz box)
  with mb ct cne show ?thesis by blast
qed

lemma resize_resized_from:
  "\<not> is_empty src \<Longrightarrow>
     \<exists>out. cv2_resize cv src (w, h) m = Inr out \<and> resized_from cv m src (w, h) out
       \<and> (0 < w \<and> 0 < h \<longrightarrow> \<not> is_empty out)"
proof -
  assume ne: "\<not> is_empty src"
  let ?out = "map (\<lambda>y. map (\<lambda>x. resample cv m src (w, h) x y) [0..<w]) [0..<h]"
  have 1: "cv2_resize cv src (w, h) m = Inr ?out" using ne by (simp add: cv2_resize_def)
  have 2: "resized_from cv m src (w, h) ?out" by (simp add: resized_from_def)
  have 3: "\<not> is_empty ?out" if "0 < w" "0 < h"
  proof -
    from that(2) have "[0..<h] = 0 # [Suc 0..<h]" by (simp add: upt_conv_Cons)
    then obtain r rest where "?out = r # rest" and "length r = w" by simp
    with that show ?thesis by (simp add: is_empty_def height_def width_def)
  qed
  from 1 2 3 show ?thesis by blast
qed

lemma imwrite_writes:
  assumes "\<not> is_empty img" "has_encoder cv p" "parent_exists fs p" "map_of fs p \<noteq> Some Dir"
  shows "\<exists>fs'. cv2_imwrite cv fs p img = (Inr True, fs')
           \<and> map_of fs' p = Some (File (ImageData img))
           \<and> (\<forall>q. q \<noteq> p \<longrightarrow> map_of fs' q = map_of fs q)"
  using assms by (simp add: cv2_imwrite_def update_conv')

text \<open>
  C7. Let the input file decode to an image \<open>im\<close>, of any size, with at least one
  foreground pixel, and let the output path be writable (an encoder for its
  extension, its directory present, the path not a directory). Then
  \<^verbatim>\<open>_process_image\<close> returns, and the file at the output path holds the image \<open>out\<close>
  where: \<open>box\<close> is the minimal bounding box of the foreground of \<open>im\<close>; \<open>crop\<close> is \<open>im\<close>
  itself (not the thresholded image) inside that box; and \<open>out\<close> has 210 rows of 210
  pixels, each interpolated from \<open>crop\<close> with \<^verbatim>\<open>INTER_CUBIC\<close>. No other path changes.
\<close>

theorem process_image_crop_resize:
  assumes "cv2_imread fs input_path = Some im"
    and "well_formed im"
    and "foreground cv im i0 j0"
    and "has_encoder cv output_path"
    and "parent_exists fs output_path"
    and "map_of fs output_path \<noteq> Some Dir"
  shows "\<exists>box crop out fs'.
           process_image cv fs input_path output_path = (Inr (), fs')
         \<and> map_of fs' output_path = Some (File (ImageData out))
         \<and> (\<forall>q. q \<noteq> output_path \<longrightarrow> map_of fs' q = map_of fs q)
         \<and> minimal_box cv im box
         \<and> cropped_to crop im box
         \<and> resized_from cv INTER_CUBIC crop (210, 210) out"
proof -
  from crop_brain_region_foreground [OF assms(2,3)] obtain box crop where
    c: "crop_brain_region cv (Some im) = Inr crop" and
    mb: "minimal_box cv im box" and ct: "cropped_to crop im box" and
    cne: "\<not> is_empty crop" by blast
  from resize_resized_from [OF cne, of cv 210 210 INTER_CUBIC] obtain out where
    r: "cv2_resize cv crop (210, 210) INTER_CUBIC = Inr out" and
    rf: "resized_from cv INTER_CUBIC crop (210, 210) out" and
    one: "\<not> is_empty out" by auto
  from imwrite_writes [OF one assms(4,5,6)] obtain fs' where
    w: "cv2_imwrite cv fs output_path out = (Inr True, fs')" and
    m: "map_of fs' output_path = Some (File (ImageData out))" and
    fr: "\<forall>q. q \<noteq> output_path \<longrightarrow> map_of fs' q = map_of fs q" by blast
  have "process_image cv fs input_path output_path = (Inr (), fs')"
    by (simp add: process_image_def assms(1) c r w)
  with m fr mb ct rf show ?thesis by blast
qed

lemma fs_raw_facts:
  "cv2_imread fs_raw ''d/train/AD/a.png'' = Some bright_square"
  "well_formed bright_square"
  "has_encoder example_cv ''d/train/AD_processed/a.png''"
  "parent_exists fs_raw ''d/train/AD_processed/a.png''"
  "map_of fs_raw ''d/train/AD_processed/a.png'' \<noteq> Some Dir"
  by code_simp+

lemma bright_square_foreground: "foreground example_cv bright_square 1 2"
  by (simp add: foreground_def example_cv_def bright_square_def)

text \<open>The theorem of C7 on an image of 4 rows and 5 columns with a bright region of
  2 by 2.\<close>

theorem process_image_crop_resize_witness:
  "crop_brain_region example_cv (Some bright_square) = Inr [[255, 255], [255, 0]]
   \<and> (\<exists>box crop out fs'.
         process_image example_cv fs_raw ''d/train/AD/a.png'' ''d/train/AD_processed/a.png''
           = (Inr (), fs')
       \<and> map_of fs' ''d/train/AD_processed/a.png'' = Some (File (ImageData out))
       \<and> minimal_box example_cv bright_square box
       \<and> cropped_to crop bright_square box
       \<and> resized_from example_cv INTER_CUBIC crop (210, 210) out)"
proof -
  have "crop_brain_region example_cv (Some bright_square) = Inr [[255, 255], [255, 0]]"
    by code_simp
  with process_image_crop_resize [OF fs_raw_facts(1,2) bright_square_foreground fs_raw_facts(3,4,5)]
  show ?thesis by blast
qed

lemma nonzero_points_all_zero:
  fixes cv :: cv2
  assumes "\<forall>r \<in> set im. \<forall>p \<in> set r. p \<le> otsu cv im"
  shows "nonzero_points (map (map (\<lambda>p. if otsu cv im < p then 255 else 0)) im) = []"
proof -
  have "\<not> foreground cv im i j" for i j
  proof
    assume f: "foreground cv im i j"
    then have "im ! i \<in> set im" "im ! i ! j \<in> set (im ! i)" by (simp_all add: foreground_def)
    with assms have "im ! i ! j \<le> otsu cv im" by blast
    moreover from f have "otsu cv im < im ! i ! j" by (simp add: foreground_def)
    ultimately show False by (blast dest: leD)
  qed
  then have none: "p \<notin> set (nonzero_points (map (map (\<lambda>p. if otsu cv im < p then 255 else 0)) im))"
    for p by (cases p) (simp add: binary_points_iff)
  show ?thesis
  proof (cases "nonzero_points (map (map (\<lambda>p. if otsu cv im < p then 255 else 0)) im)")
    case Nil
    then show ?thesis .
  next
    case (Cons a l)
    with none [of a] show ?thesis by simp
  qed
qed

text \<open>
  C4 (amended). On an image without a foreground pixel, \<^verbatim>\<open>_crop_brain_region\<close> raises
  nothing and returns the crop of size zero. \<^verbatim>\<open>_process_image\<close> on a file that decodes
  to such an image then fails in \<^verbatim>\<open>cv2.resize\<close>, with the error of OpenCV, and writes
  nothing.
\<close>

theorem all_background_zero_size_crop:
  assumes "\<not> is_empty im" and "\<forall>r \<in> set im. \<forall>p \<in> set r. p \<le> otsu cv im"
  shows "crop_brain_region cv (Some im) = Inr []
       \<and> (cv2_imread fs input_path = Some im \<longrightarrow>
            process_image cv fs input_path output_path = (Inl CvError, fs))"
proof -
  have z: "nonzero_points (map (map (\<lambda>p. if otsu cv im < p then 255 else 0)) im) = []"
    using assms(2) by (rule nonzero_points_all_zero)
  have c: "crop_brain_region cv (Some im) = Inr []"
    by (simp add: crop_brain_region_def threshold_Some [OF assms(1)] cv2_findNonZero_def z
        cv2_boundingRect_def slice2d_def)
  have "cv2_resize cv [] (210, 210) INTER_CUBIC = Inl CvError"
    by (simp add: cv2_resize_def is_empty_def height_def)
  with c show ?thesis by (simp add: process_image_def)
qed

text \<open>
  C4 as stated fails: for a black image of 2 by 2 the crop is returned, of size zero,
  and the failure that follows is the one of \<^verbatim>\<open>cv2.resize\<close>.
\<close>

theorem all_background_counterexample:
  "crop_brain_region example_cv (Some black) = Inr []
   \<and> process_image example_cv fs_black ''d/train/AD/a.PNG'' ''d/train/AD_processed/a.PNG''
       = (Inl CvError, fs_black)"
  by code_simp

lemma black_row_background: "\<forall>r \<in> set black_row. \<forall>p \<in> set r. p \<le> otsu example_cv black_row"
  by (simp add: black_row_def example_cv_def)

lemma black_row_not_empty: "\<not> is_empty black_row"
  by code_simp

text \<open>The theorem of C4 on a black image of one row.\<close>

theorem all_background_zero_size_crop_witness:
  "crop_brain_region example_cv (Some black_row) = Inr []
   \<and> process_image example_cv [(''x.png'', File (ImageData black_row))] ''x.png'' ''y.png''
       = (Inl CvError, [(''x.png'', File (ImageData black_row))])"
proof -
  have "cv2_imread [(''x.png'', File (ImageData black_row))] ''x.png'' = Some black_row"
    by (simp add: cv2_imread_def)
  with all_background_zero_size_crop [OF black_row_not_empty black_row_background,
      of "[(''x.png'', File (ImageData black_row))]" "''x.png''" "''y.png''"]
  show ?thesis by simp
qed

end
